theory Spec2Isabelle
  imports Main "HOL-Library.AList"
begin

section \<open>Python values used by the program\<close>

text \<open>
  Exceptions are values. Only the exception classes that the modelled functions raise
  or catch appear; the messages are the literals of the source.
\<close>

datatype exn =
    ValueError string
  | IndexError string
  | EOFError string
  | KeyboardInterrupt
  | OtherException

text \<open>
  One call of a blocking read (the builtin \<^verbatim>\<open>input\<close>, or the \<^verbatim>\<open>input\<close> method of
  an input strategy) has one of four outcomes: it returns a string, or it raises
  \<^verbatim>\<open>EOFError\<close>, \<^verbatim>\<open>KeyboardInterrupt\<close> or some other \<^verbatim>\<open>Exception\<close>. The
  environment is a list of such outcomes, one per call; a source that is exhausted
  raises \<^verbatim>\<open>EOFError\<close> on every further call, as a closed standard input does.
\<close>

datatype outcome = Line string | EOF | Interrupt | Failure

text \<open>What a run does to the outside world, in order.\<close>

datatype effect =
    Prompt "string option"
  | Stdout string
  | Stderr string
  | LogFatal
  | ExecSingle string
  | ExecMulti string string

definition nl :: string where
  "nl = [CHR 0x0A]"

definition backslash :: char where
  "backslash = CHR 0x5C"

subsection \<open>\<^verbatim>\<open>str.strip\<close>, \<^verbatim>\<open>str.split\<close>, \<^verbatim>\<open>str.join\<close>, \<^verbatim>\<open>str.replace\<close>\<close>

text \<open>
  The characters below 256 for which \<^verbatim>\<open>str.isspace\<close> holds; \<^verbatim>\<open>str.strip()\<close>
  removes them from both ends.
\<close>

definition isspace :: "char \<Rightarrow> bool" where
  "isspace c \<longleftrightarrow> List.member
     [CHR 0x09, CHR 0x0A, CHR 0x0B, CHR 0x0C, CHR 0x0D,
      CHR 0x1C, CHR 0x1D, CHR 0x1E, CHR 0x1F, CHR 0x20, CHR 0x85, CHR 0xA0] c"

definition str_strip :: "string \<Rightarrow> string" where
  "str_strip s = rev (dropWhile isspace (rev (dropWhile isspace s)))"

text \<open>
  \<^verbatim>\<open>s.split(sep)\<close> for a string \<open>sep\<close>: a scan from the left that cuts at every
  non-overlapping occurrence of \<open>sep\<close>; \<open>cur\<close> is the field being read. An empty
  separator raises \<^verbatim>\<open>ValueError\<close>.
\<close>

function split_from :: "string \<Rightarrow> string \<Rightarrow> string \<Rightarrow> string list" where
  "split_from sep cur s =
     (if s = [] then [cur]
      else if sep \<noteq> [] \<and> take (length sep) s = sep
        then cur # split_from sep [] (drop (length sep) s)
      else split_from sep (cur @ [hd s]) (tl s))"
  by pat_completeness auto
termination
  by (relation "measure (\<lambda>(sep, cur, s). length s)") auto

declare split_from.simps [simp del]

definition str_split :: "string \<Rightarrow> string \<Rightarrow> exn + string list" where
  "str_split s sep =
     (if sep = [] then Inl (ValueError ''empty separator'') else Inr (split_from sep [] s))"

fun str_join :: "string \<Rightarrow> string list \<Rightarrow> string" where
  "str_join sep [] = []"
| "str_join sep [x] = x"
| "str_join sep (x # y # ys) = x @ sep @ str_join sep (y # ys)"

text \<open>\<^verbatim>\<open>s.replace(a, b)\<close> for one-character strings \<open>a\<close> and \<open>b\<close>.\<close>

definition str_replace_char :: "char \<Rightarrow> char \<Rightarrow> string \<Rightarrow> string" where
  "str_replace_char a b s = map (\<lambda>c. if c = a then b else c) s"

subsection \<open>Lists and dictionaries\<close>

text \<open>\<^verbatim>\<open>xs[i]\<close>: a negative index counts from the end, an index out of range raises.\<close>

definition list_index :: "'a list \<Rightarrow> int \<Rightarrow> exn + 'a" where
  "list_index xs i =
     (if 0 \<le> i \<and> i < int (length xs) then Inr (xs ! nat i)
      else if i < 0 \<and> - int (length xs) \<le> i then Inr (xs ! nat (int (length xs) + i))
      else Inl (IndexError ''list index out of range''))"

text \<open>
  A \<^verbatim>\<open>dict\<close> keeps its keys in insertion order, and storing under a key that is
  present replaces the value in place: an association list under \<^const>\<open>AList.update\<close>.
\<close>

type_synonym dict = "(string \<times> string) list"

definition dict_get :: "dict \<Rightarrow> string \<Rightarrow> string \<Rightarrow> string" where
  "dict_get d k dflt = (case map_of d k of None \<Rightarrow> dflt | Some v \<Rightarrow> v)"

section \<open>textutils.py: \<^verbatim>\<open>CSVUtilsBase\<close>, and its subclass \<^verbatim>\<open>CsvUtils\<close> of tfind.py\<close>

definition is_ranged_or_raise :: "int \<Rightarrow> int \<Rightarrow> exn + unit" where
  "is_ranged_or_raise key_idx value_idx =
     (if key_idx < 1 \<or> value_idx < 1
      then Inl (ValueError ''field number must be 1 or more'') else Inr ())"

definition is_different_idx_or_raise :: "int \<Rightarrow> int \<Rightarrow> exn + unit" where
  "is_different_idx_or_raise key_idx value_idx =
     (if key_idx = value_idx
      then Inl (ValueError ''impossible to specify the same field number'') else Inr ())"

definition replace_underscore :: "string \<Rightarrow> string" where
  "replace_underscore line = str_replace_char (CHR ''_'') (CHR '' '') (str_strip line)"

text \<open>\<^verbatim>\<open>CsvUtils._do_preprocess\<close>: \<^verbatim>\<open>column[0] = self.replace_underscore(column[0])\<close>.\<close>

definition do_preprocess :: "string list \<Rightarrow> exn + string list" where
  "do_preprocess column =
     (case list_index column 0 of
        Inl e \<Rightarrow> Inl e
      | Inr c0 \<Rightarrow> Inr (column[0 := replace_underscore c0]))"

text \<open>The body of the loop of \<^verbatim>\<open>preprocess\<close>, for one line.\<close>

definition preprocess_line :: "string \<Rightarrow> string \<Rightarrow> exn + string list" where
  "preprocess_line delim line =
     (case str_split (str_strip line) delim of
        Inl e \<Rightarrow> Inl e
      | Inr columns \<Rightarrow> do_preprocess columns)"

text \<open>
  The dictionary comprehension \<^verbatim>\<open>{row[k]: row[v] for row in it}\<close> over the generator
  \<^verbatim>\<open>preprocess(lines)\<close>: the rows are produced and stored one at a time, and the
  first exception ends the comprehension.
\<close>

fun comprehend :: "string \<Rightarrow> int \<Rightarrow> int \<Rightarrow> string list \<Rightarrow> dict \<Rightarrow> exn + dict" where
  "comprehend delim k v [] d = Inr d"
| "comprehend delim k v (line # lines) d =
     (case preprocess_line delim line of
        Inl e \<Rightarrow> Inl e
      | Inr row \<Rightarrow>
          (case list_index row k of
             Inl e \<Rightarrow> Inl e
           | Inr key \<Rightarrow>
               (case list_index row v of
                  Inl e \<Rightarrow> Inl e
                | Inr val \<Rightarrow> comprehend delim k v lines (AList.update key val d))))"

definition prepare_kv :: "string list \<Rightarrow> string \<Rightarrow> int \<Rightarrow> int \<Rightarrow> exn + dict" where
  "prepare_kv lines delim key_idx value_idx =
     (case is_ranged_or_raise key_idx value_idx of
        Inl e \<Rightarrow> Inl e
      | Inr _ \<Rightarrow>
          (case is_different_idx_or_raise key_idx value_idx of
             Inl e \<Rightarrow> Inl e
           | Inr _ \<Rightarrow>
               (case comprehend delim (key_idx - 1) (value_idx - 1) lines [] of
                  Inl (IndexError _) \<Rightarrow>
                    Inl (IndexError ''failed to get the element of the row number'')
                | r \<Rightarrow> r)))"

section \<open>tfind.py: formatters and \<^verbatim>\<open>TokenFinder\<close>\<close>

text \<open>
  \<^verbatim>\<open>re.sub(r"([\(\)])", r"\\\g<1>", text)\<close>: one pass from the left; every
  parenthesis is replaced by a backslash and itself, every other character is kept.
\<close>

definition is_paren :: "char \<Rightarrow> bool" where
  "is_paren c \<longleftrightarrow> c = CHR ''('' \<or> c = CHR '')''"

fun escape_parentheses :: "string \<Rightarrow> string" where
  "escape_parentheses [] = []"
| "escape_parentheses (c # cs) =
     (if is_paren c then backslash # c # escape_parentheses cs
      else c # escape_parentheses cs)"

definition to_csv :: "string \<Rightarrow> string" where
  "to_csv token = token"

definition to_a1111 :: "string \<Rightarrow> string" where
  "to_a1111 token = escape_parentheses token"

text \<open>
  The three attributes of \<^verbatim>\<open>sanipro.delimiter.Delimiter\<close> that \<^verbatim>\<open>TokenFinder\<close> reads.
  The command line gives all three as strings; the field separator may also be
  \<^verbatim>\<open>None\<close>, which \<^verbatim>\<open>execute\<close> tests for. The formatter is a parameter: a function
  on strings, as each of \<^verbatim>\<open>Formatter.to_csv\<close> and \<^verbatim>\<open>Formatter.to_a1111\<close> is.
\<close>

record delimiter =
  sep_input :: string
  sep_output :: string
  sep_field :: "string option"

text \<open>
  The loop of \<^verbatim>\<open>TokenFinder.execute\<close> over the tokens, with the list \<open>result\<close>
  it appends to; the \<^verbatim>\<open>break\<close> returns what has been collected.
\<close>

fun collect :: "(string \<Rightarrow> string) \<Rightarrow> string \<Rightarrow> dict \<Rightarrow> string list \<Rightarrow> string list \<Rightarrow> string list" where
  "collect formatter field_d kvstore [] result = result"
| "collect formatter field_d kvstore (token # tokens) result =
     (let new_token = str_strip token in
      if new_token = [] then result
      else
        (let nums = dict_get kvstore new_token ''NULL'';
             token_escaped = formatter new_token;
             columns = [token_escaped, nums];
             serialized = str_join field_d columns
         in collect formatter field_d kvstore tokens (result @ [serialized])))"

definition execute :: "delimiter \<Rightarrow> (string \<Rightarrow> string) \<Rightarrow> string \<Rightarrow> dict \<Rightarrow> exn + string" where
  "execute d formatter prompt kvstore =
     (case sep_field d of
        None \<Rightarrow> Inl (ValueError ''field delimiter is None'')
      | Some field_d \<Rightarrow>
          (case str_split prompt (sep_input d) of
             Inl e \<Rightarrow> Inl e
           | Inr tokens \<Rightarrow>
               Inr (str_join (sep_output d) (collect formatter field_d kvstore tokens []))))"

text \<open>
  What the table stores for the 1-based field number \<open>idx\<close> of a line, in the words
  of the description of the table construction: the first field with its underscores
  replaced (and stripped), any other field as the split of the stripped line gives it.
  A specification-side function, compared with \<^const>\<open>prepare_kv\<close> below.
\<close>

definition stored_field :: "string \<Rightarrow> int \<Rightarrow> string \<Rightarrow> string" where
  "stored_field delim idx line =
     (let fields = split_from delim [] (str_strip line)
      in if idx = 1 then replace_underscore (fields ! 0) else fields ! nat (idx - 1))"

section \<open>inputs.py: \<^verbatim>\<open>MultipleInputStrategy\<close>\<close>

record multiple_input_strategy =
  ps1 :: string
  ps2 :: string

text \<open>\<^verbatim>\<open>MultipleInputStrategy.__init__\<close>.\<close>

definition MultipleInputStrategy :: "string \<Rightarrow> string \<Rightarrow> multiple_input_strategy" where
  "MultipleInputStrategy p1 p2 =
     \<lparr>ps1 = p1, ps2 = (if p1 \<noteq> [] \<and> p2 = [] then p1 else p2)\<rparr>"

text \<open>
  The \<^verbatim>\<open>while True\<close> loop of \<^verbatim>\<open>MultipleInputStrategy.input\<close>. Each call of the
  builtin \<^verbatim>\<open>input(_prompt)\<close> shows the label \<open>_prompt\<close> and takes the next outcome
  of the console; \<open>buffer\<close> holds the lines read so far. \<^verbatim>\<open>if buffer\<close> tests that the
  list has an element. Exceptions other than \<^verbatim>\<open>EOFError\<close> leave the loop.
\<close>

fun read_lines ::
  "multiple_input_strategy \<Rightarrow> string option \<Rightarrow> string list \<Rightarrow> outcome list \<Rightarrow> effect list \<Rightarrow>
   (exn + string) \<times> outcome list \<times> effect list" where
  "read_lines self p buffer [] tr =
     (if buffer \<noteq> [] then (Inr (concat buffer), [], tr @ [Prompt p, Stdout nl])
      else (Inl (EOFError ''EOF when reading a line''), [], tr @ [Prompt p]))"
| "read_lines self p buffer (Line line # console) tr =
     read_lines self (Some (ps2 self)) (buffer @ [line]) console (tr @ [Prompt p])"
| "read_lines self p buffer (EOF # console) tr =
     (if buffer \<noteq> [] then (Inr (concat buffer), console, tr @ [Prompt p, Stdout nl])
      else (Inl (EOFError ''EOF when reading a line''), console, tr @ [Prompt p]))"
| "read_lines self p buffer (Interrupt # console) tr =
     (Inl KeyboardInterrupt, console, tr @ [Prompt p])"
| "read_lines self p buffer (Failure # console) tr =
     (Inl OtherException, console, tr @ [Prompt p])"

text \<open>
  \<^verbatim>\<open>MultipleInputStrategy.input(prompt)\<close>: the result of the call, the rest of the
  console, what was shown, and the strategy object after the call.
\<close>

definition multiple_input ::
  "multiple_input_strategy \<Rightarrow> string option \<Rightarrow> outcome list \<Rightarrow>
   ((exn + string) \<times> outcome list \<times> effect list) \<times> multiple_input_strategy" where
  "multiple_input self prompt console =
     (case prompt of
        Some p \<Rightarrow>
          (let self = self\<lparr>ps1 := p, ps2 := p\<rparr>
           in (read_lines self None [] console [], self))
      | None \<Rightarrow> (read_lines self (Some (ps1 self)) [] console [], self))"

text \<open>The labels shown by a call, in order.\<close>

definition prompts :: "effect list \<Rightarrow> string option list" where
  "prompts tr = concat (map (\<lambda>e. case e of Prompt p \<Rightarrow> [p] | _ \<Rightarrow> []) tr)"

text \<open>
  Modelled from the spec: the class \<^verbatim>\<open>DirectInputStrategy\<close>, which tfind.py
  constructs as \<^verbatim>\<open>inputs.DirectInputStrategy()\<close> and inputs.py does not define. The
  description says that it wraps an already-available string. The state is the string
  not yet handed out.
\<close>

datatype direct_input_strategy = DirectInputStrategy "string option"

text \<open>
  Modelled from the spec: the \<^verbatim>\<open>input\<close> operation of \<^verbatim>\<open>DirectInputStrategy\<close>, missing
  from inputs.py with its class. The description says that a single call returns the
  wrapped string and that a second call fails with end-of-input.
\<close>

fun direct_input :: "direct_input_strategy \<Rightarrow> (exn + string) \<times> direct_input_strategy" where
  "direct_input (DirectInputStrategy (Some s)) = (Inr s, DirectInputStrategy None)"
| "direct_input (DirectInputStrategy None) =
     (Inl (EOFError ''EOF when reading a line''), DirectInputStrategy None)"

text \<open>
  \<^verbatim>\<open>CliCommandsDemo._get_input_strategy\<close> of tfind.py. The source constructs the
  direct strategy without an argument; \<open>available\<close> is the text that it has in hand.
\<close>

datatype input_strategy =
    Direct direct_input_strategy
  | Oneline string
  | Multiple multiple_input_strategy

definition get_input_strategy ::
  "bool \<Rightarrow> bool \<Rightarrow> string \<Rightarrow> string \<Rightarrow> string \<Rightarrow> input_strategy" where
  "get_input_strategy interactive one_line p1 p2 available =
     (if \<not> interactive then Direct (DirectInputStrategy (Some available))
      else if one_line then Oneline p1
      else Multiple (MultipleInputStrategy p1 p2))"

section \<open>cli_runner.py: \<^verbatim>\<open>RunnerInteractiveMultiple\<close>\<close>














section \<open>cli_runner.py: \<^verbatim>\<open>RunnerNonInteractiveSingle\<close>\<close>

text \<open>
  How \<^verbatim>\<open>_run_once\<close> ends: it returns, or \<^verbatim>\<open>sys.exit\<close> leaves it with a status, or
  another exception leaves it. The interpreter ends with status 1 on an exception that
  nothing catches.
\<close>

datatype completion = Returns | SystemExit int | Raises exn

definition exit_status :: "completion \<Rightarrow> int" where
  "exit_status c = (case c of Returns \<Rightarrow> 0 | SystemExit n \<Rightarrow> n | Raises e \<Rightarrow> 1)"

text \<open>
  \<^verbatim>\<open>_run_once\<close> for one outcome of \<^verbatim>\<open>self._input_strategy.input()\<close>: the
  \<^verbatim>\<open>try\<close> body or the \<^verbatim>\<open>except\<close> clause fixes \<open>sentence\<close> and how the method is
  about to end, then the \<^verbatim>\<open>finally\<close> clause calls the callback and prints its result.
  An exception raised inside \<^verbatim>\<open>finally\<close> replaces the pending one.
\<close>

definition run_once :: "(string \<Rightarrow> exn + string) \<Rightarrow> outcome \<Rightarrow> completion \<times> effect list" where
  "run_once exec ev =
     (let (sentence, pending, tr) =
            (case ev of
               Line s \<Rightarrow> (str_strip s, Returns, [])
             | EOF \<Rightarrow> ([], SystemExit 1, [Stderr nl])
             | Interrupt \<Rightarrow> ([], SystemExit 1, [Stderr nl])
             | Failure \<Rightarrow> ([], Raises OtherException, []))
      in case exec sentence of
           Inl e \<Rightarrow> (Raises e, tr @ [ExecSingle sentence])
         | Inr out \<Rightarrow> (pending, tr @ [ExecSingle sentence, Stdout (out @ nl)]))"

text \<open>The arguments handed to the single-input execution callback, in order.\<close>

definition single_calls :: "effect list \<Rightarrow> string list" where
  "single_calls tr = concat (map (\<lambda>e. case e of ExecSingle s \<Rightarrow> [s] | _ \<Rightarrow> []) tr)"

section \<open>Evaluation of the string primitives\<close>

lemma split_from_nonempty: "split_from sep cur s \<noteq> []"
proof (induction sep cur s rule: split_from.induct)
  case (1 sep cur s)
  show ?case
  proof (cases "s = []")
    case True
    then show ?thesis by (simp add: split_from.simps)
  next
    case False
    show ?thesis
    proof (cases "sep \<noteq> [] \<and> take (length sep) s = sep")
      case True
      with False show ?thesis by (subst split_from.simps) simp
    next
      case miss: False
      with False "1.IH"(2) have "split_from sep (cur @ [hd s]) (tl s) \<noteq> []" by blast
      with False miss show ?thesis by (subst split_from.simps) auto
    qed
  qed
qed

lemma str_split_Inr: "sep \<noteq> [] \<Longrightarrow> str_split s sep = Inr (split_from sep [] s)"
  by (simp add: str_split_def)

lemma list_index_nat:
  "0 \<le> i \<Longrightarrow> i < int (length xs) \<Longrightarrow> list_index xs i = Inr (xs ! nat i)"
  by (simp add: list_index_def Let_def)

lemma strip_a: "str_strip ''a'' = ''a''"
  by code_simp

lemma strip_blank: "str_strip '' '' = []"
  by code_simp

lemma split_a_blank_b: "str_split ''a, ,b'' '','' = Inr [''a'', '' '', ''b'']"
  by code_simp

section \<open>The concrete scenario\<close>

lemma scenario_table:
  "prepare_kv [''cat,10'', ''dog,5''] '','' 1 2 = Inr [(''cat'', ''10''), (''dog'', ''5'')]"
  by code_simp

lemma scenario_lookup:
  "execute \<lparr>sep_input = '','', sep_output = '' | '', sep_field = Some '':''\<rparr> to_csv
     ''cat, dog, fox'' [(''cat'', ''10''), (''dog'', ''5'')] = Inr ''cat:10 | dog:5 | fox:NULL''"
  by code_simp

text \<open>
  C1. Building the table from the rows \<^verbatim>\<open>["cat,10", "dog,5"]\<close> with row delimiter
  \<^verbatim>\<open>","\<close>, key field 1 and value field 2 gives the dictionary
  \<^verbatim>\<open>{"cat": "10", "dog": "5"}\<close>, and \<^verbatim>\<open>TokenFinder.execute("cat, dog, fox")\<close> over
  that dictionary with input delimiter \<^verbatim>\<open>","\<close>, field delimiter \<^verbatim>\<open>":"\<close>, output
  delimiter \<^verbatim>\<open>" | "\<close> and the csv formatter returns \<^verbatim>\<open>"cat:10 | dog:5 | fox:NULL"\<close>.
\<close>

theorem concrete_scenario:
  "prepare_kv [''cat,10'', ''dog,5''] '','' 1 2 = Inr [(''cat'', ''10''), (''dog'', ''5'')] \<and>
   execute \<lparr>sep_input = '','', sep_output = '' | '', sep_field = Some '':''\<rparr> to_csv
     ''cat, dog, fox'' [(''cat'', ''10''), (''dog'', ''5'')] = Inr ''cat:10 | dog:5 | fox:NULL''"
  using scenario_table scenario_lookup by (rule conjI)

section \<open>The loop of \<^verbatim>\<open>TokenFinder.execute\<close>\<close>

lemma collect_stops:
  "str_strip t = [] \<Longrightarrow>
   collect f fd kv (pre @ t # post) result = collect f fd kv pre result"
  by (induction pre arbitrary: result) (simp_all add: Let_def)

lemma collect_map:
  "collect f fd kv tokens result =
   result @ map (\<lambda>token. f (str_strip token) @ fd @ dict_get kv (str_strip token) ''NULL'')
                (takeWhile (\<lambda>token. str_strip token \<noteq> []) tokens)"
  by (induction tokens arbitrary: result) (simp_all add: Let_def)

lemma execute_a_blank_b:
  "execute \<lparr>sep_input = '','', sep_output = out_d, sep_field = Some field_d\<rparr>
     formatter ''a, ,b'' kvstore =
   Inr (formatter ''a'' @ field_d @ dict_get kvstore ''a'' ''NULL'')"
  by (simp add: execute_def split_a_blank_b strip_a strip_blank Let_def)

lemma execute_cut:
  assumes "sep_field d = Some field_d"
    and "str_split prompt (sep_input d) = Inr (pre @ t # post)"
    and "str_strip t = []"
  shows "execute d formatter prompt kvstore =
     Inr (str_join (sep_output d)
       (map (\<lambda>token. formatter (str_strip token) @ field_d @
                       dict_get kvstore (str_strip token) ''NULL'')
            (takeWhile (\<lambda>token. str_strip token \<noteq> []) pre)))"
proof -
  have "collect formatter field_d kvstore (pre @ t # post) [] =
        collect formatter field_d kvstore pre []"
    using assms(3) by (rule collect_stops)
  then show ?thesis
    using assms(1,2) by (simp add: execute_def collect_map)
qed

text \<open>
  C3. When the tokens of the prompt are \<open>pre @ t # post\<close> and \<open>t\<close> is empty after
  stripping, the result of \<^verbatim>\<open>execute\<close> is built from the tokens of \<open>pre\<close> alone (up to
  the first of them that is itself empty after stripping): no token of \<open>post\<close> is
  looked up or written, whatever the table, the formatter and the delimiters. In
  particular, with input delimiter \<^verbatim>\<open>","\<close> the prompt \<^verbatim>\<open>"a, ,b"\<close> gives exactly the
  record of \<^verbatim>\<open>"a"\<close>.
\<close>

theorem execute_stops_at_empty_token:
  "(sep_field d = Some field_d \<and> str_split prompt (sep_input d) = Inr (pre @ t # post) \<and>
    str_strip t = [] \<longrightarrow>
      execute d formatter prompt kvstore =
        Inr (str_join (sep_output d)
          (map (\<lambda>token. formatter (str_strip token) @ field_d @
                          dict_get kvstore (str_strip token) ''NULL'')
               (takeWhile (\<lambda>token. str_strip token \<noteq> []) pre)))) \<and>
   execute \<lparr>sep_input = '','', sep_output = out_d, sep_field = Some field_d\<rparr>
     formatter ''a, ,b'' kvstore =
   Inr (formatter ''a'' @ field_d @ dict_get kvstore ''a'' ''NULL'')"
  using execute_cut [of d field_d prompt pre t post formatter kvstore] execute_a_blank_b
  by blast

theorem execute_stops_at_empty_token_witness:
  "str_split ''a, ,b'' '','' = Inr ([''a''] @ '' '' # [''b'']) \<and> str_strip '' '' = [] \<and>
   execute \<lparr>sep_input = '','', sep_output = '' | '', sep_field = Some '':''\<rparr>
     to_csv ''a, ,b'' [(''b'', ''7'')] = Inr ''a:NULL''"
proof -
  let ?d = "\<lparr>sep_input = '','', sep_output = '' | '', sep_field = Some '':''\<rparr>"
  have s: "str_split ''a, ,b'' (sep_input ?d) = Inr ([''a''] @ '' '' # [''b''])"
    by (simp add: split_a_blank_b)
  have f: "sep_field ?d = Some '':''" by simp
  from execute_stops_at_empty_token [of ?d "'':''" "''a, ,b''" "[''a'']" "'' ''" "[''b'']"
      to_csv "[(''b'', ''7'')]"] f s strip_blank
  have "execute ?d to_csv ''a, ,b'' [(''b'', ''7'')] =
        Inr (str_join (sep_output ?d)
          (map (\<lambda>token. to_csv (str_strip token) @ '':'' @
                          dict_get [(''b'', ''7'')] (str_strip token) ''NULL'')
               (takeWhile (\<lambda>token. str_strip token \<noteq> []) [''a''])))"
    by blast
  then have "execute ?d to_csv ''a, ,b'' [(''b'', ''7'')] = Inr ''a:NULL''"
    by (simp add: strip_a to_csv_def dict_get_def)
  with s strip_blank show ?thesis by simp
qed

section \<open>The field separator\<close>

lemma execute_None:
  "sep_field d = None \<Longrightarrow>
   execute d formatter prompt kvstore = Inl (ValueError ''field delimiter is None'')"
  by (simp add: execute_def)

lemma execute_Some:
  "sep_field d = Some field_d \<Longrightarrow>
   execute d formatter prompt kvstore =
     (if sep_input d = [] then Inl (ValueError ''empty separator'')
      else Inr (str_join (sep_output d)
             (collect formatter field_d kvstore (split_from (sep_input d) [] prompt) [])))"
  by (simp add: execute_def str_split_def)

text \<open>
  C6, as stated, fails: with the empty string as field separator \<^verbatim>\<open>execute\<close> does not
  fail; it joins each token and its count with nothing between them.
\<close>

theorem empty_field_separator_accepted:
  "execute \<lparr>sep_input = '','', sep_output = ''|'', sep_field = Some []\<rparr>
     to_csv ''a,b'' [(''a'', ''1'')] = Inr ''a1|bNULL''"
  by code_simp

text \<open>
  C6, amended. \<^verbatim>\<open>execute\<close> fails with its field-delimiter error exactly when the field
  separator is \<^verbatim>\<open>None\<close> at call time, so it succeeds only if the field separator is
  not \<^verbatim>\<open>None\<close>; with a field separator that is not \<^verbatim>\<open>None\<close> (the empty string
  included) and a non-empty input delimiter it succeeds.
\<close>

theorem field_separator_precondition:
  "(execute d formatter prompt kvstore = Inl (ValueError ''field delimiter is None'')) =
     (sep_field d = None) \<and>
   (\<forall>out. execute d formatter prompt kvstore = Inr out \<longrightarrow> sep_field d \<noteq> None) \<and>
   (sep_field d \<noteq> None \<and> sep_input d \<noteq> [] \<longrightarrow>
      (\<exists>out. execute d formatter prompt kvstore = Inr out))"
proof (cases "sep_field d")
  case None
  then show ?thesis by (simp add: execute_None)
next
  case (Some field_d)
  then show ?thesis by (simp add: execute_Some)
qed

theorem field_separator_precondition_witness:
  "sep_field \<lparr>sep_input = '','', sep_output = ''|'', sep_field = Some []\<rparr> \<noteq> None \<and>
   execute \<lparr>sep_input = '','', sep_output = ''|'', sep_field = Some []\<rparr> to_csv ''a,b'' [] \<noteq>
     Inl (ValueError ''field delimiter is None'')"
  using field_separator_precondition
    [of "\<lparr>sep_input = '','', sep_output = ''|'', sep_field = Some []\<rparr>" to_csv "''a,b''" "[]"]
  by simp

section \<open>Escaping of parentheses\<close>

lemma escape_count_backslash:
  "count_list (escape_parentheses t) backslash =
   count_list t backslash + length (filter is_paren t)"
  by (induction t) (auto simp: is_paren_def backslash_def)

lemma escape_length:
  "length (escape_parentheses t) = length t + length (filter is_paren t)"
  by (induction t) auto

lemma escape_concat:
  "escape_parentheses t = concat (map (\<lambda>c. if is_paren c then [backslash, c] else [c]) t)"
  by (induction t) simp_all

lemma backslash_not_paren: "\<not> is_paren backslash"
  by (simp add: is_paren_def backslash_def)

lemma escape_paren_preceded:
  "i < length (escape_parentheses t) \<Longrightarrow> is_paren (escape_parentheses t ! i) \<Longrightarrow>
   0 < i \<and> escape_parentheses t ! (i - 1) = backslash"
proof (induction t arbitrary: i)
  case Nil
  then show ?case by simp
next
  case (Cons c cs)
  show ?case
  proof (cases "is_paren c")
    case True
    show ?thesis
    proof (cases i)
      case 0
      with Cons.prems True show ?thesis by (simp add: backslash_not_paren)
    next
      case (Suc j)
      show ?thesis
      proof (cases j)
        case 0
        with Suc True show ?thesis by simp
      next
        case (Suc k)
        with \<open>i = Suc j\<close> Cons.prems True
        have "k < length (escape_parentheses cs)" "is_paren (escape_parentheses cs ! k)"
          by simp_all
        then have "0 < k \<and> escape_parentheses cs ! (k - 1) = backslash" by (rule Cons.IH)
        with Suc \<open>i = Suc j\<close> True show ?thesis by (cases k) simp_all
      qed
    qed
  next
    case False
    show ?thesis
    proof (cases i)
      case 0
      with Cons.prems False show ?thesis by simp
    next
      case (Suc k)
      with Cons.prems False
      have "k < length (escape_parentheses cs)" "is_paren (escape_parentheses cs ! k)"
        by simp_all
      then have "0 < k \<and> escape_parentheses cs ! (k - 1) = backslash" by (rule Cons.IH)
      with Suc False show ?thesis by (cases k) simp_all
    qed
  qed
qed

text \<open>
  C8. For every token, \<^verbatim>\<open>Formatter.to_a1111\<close> is \<^verbatim>\<open>TFindEscaper.escape_parentheses\<close>,
  which writes every character of the token once, in order, with one backslash before
  each parenthesis. In the result every parenthesis stands directly after a backslash
  (none is un-escaped), and the result has as many backslashes more than the token as
  the token has parentheses, and is longer by that number. The statement holds for
  every token, so also for those that contain a parenthesis.
\<close>

theorem escape_bound:
  "to_a1111 t = escape_parentheses t \<and>
   to_a1111 t = concat (map (\<lambda>c. if is_paren c then [backslash, c] else [c]) t) \<and>
   count_list (to_a1111 t) backslash = count_list t backslash + length (filter is_paren t) \<and>
   length (to_a1111 t) = length t + length (filter is_paren t) \<and>
   (\<forall>i < length (to_a1111 t). is_paren (to_a1111 t ! i) \<longrightarrow>
      0 < i \<and> to_a1111 t ! (i - 1) = backslash)"
proof -
  have a: "to_a1111 t = escape_parentheses t"
    by (simp add: to_a1111_def)
  have b: "to_a1111 t = concat (map (\<lambda>c. if is_paren c then [backslash, c] else [c]) t)"
    unfolding to_a1111_def by (rule escape_concat)
  have c: "count_list (to_a1111 t) backslash =
      count_list t backslash + length (filter is_paren t)"
    by (simp add: to_a1111_def escape_count_backslash)
  have d: "length (to_a1111 t) = length t + length (filter is_paren t)"
    by (simp add: to_a1111_def escape_length)
  have e: "\<forall>i < length (to_a1111 t). is_paren (to_a1111 t ! i) \<longrightarrow>
      0 < i \<and> to_a1111 t ! (i - 1) = backslash"
    using escape_paren_preceded [of _ t] by (simp add: to_a1111_def)
  from a b c d e show ?thesis by blast
qed

theorem escape_bound_witness:
  "is_paren (to_a1111 ''f(x)'' ! 2) \<and> to_a1111 ''f(x)'' ! 1 = backslash \<and>
   count_list (to_a1111 ''f(x)'') backslash = 2"
proof -
  have e: "escape_parentheses ''f(x)'' =
      [CHR ''f'', backslash, CHR ''('', CHR ''x'', backslash, CHR '')'']"
    by (simp add: is_paren_def)
  have p: "is_paren (to_a1111 ''f(x)'' ! 2)" and l: "2 < length (to_a1111 ''f(x)'')"
    by (simp_all add: to_a1111_def e is_paren_def)
  have c: "count_list ''f(x)'' backslash + length (filter is_paren ''f(x)'') = 2"
    by (simp add: is_paren_def backslash_def)
  note b = escape_bound [of "''f(x)''"]
  from b have "\<forall>i < length (to_a1111 ''f(x)''). is_paren (to_a1111 ''f(x)'' ! i) \<longrightarrow>
      0 < i \<and> to_a1111 ''f(x)'' ! (i - 1) = backslash"
    by (elim conjE)
  with l p have "to_a1111 ''f(x)'' ! (2 - 1) = backslash" by blast
  then have q: "to_a1111 ''f(x)'' ! 1 = backslash" by simp
  from b have "count_list (to_a1111 ''f(x)'') backslash =
      count_list ''f(x)'' backslash + length (filter is_paren ''f(x)'')"
    by (elim conjE)
  with c have n: "count_list (to_a1111 ''f(x)'') backslash = 2" by simp
  from p q n show ?thesis by blast
qed

section \<open>Construction of the table\<close>

lemma do_preprocess_nonempty:
  "column \<noteq> [] \<Longrightarrow> do_preprocess column = Inr (column[0 := replace_underscore (column ! 0)])"
  by (simp add: do_preprocess_def list_index_def)

lemma preprocess_line_ok:
  "delim \<noteq> [] \<Longrightarrow>
   preprocess_line delim line =
     Inr ((split_from delim [] (str_strip line))
            [0 := replace_underscore (split_from delim [] (str_strip line) ! 0)])"
  by (simp add: preprocess_line_def str_split_Inr do_preprocess_nonempty split_from_nonempty)

lemma comprehend_ok:
  assumes "delim \<noteq> []" "1 \<le> key_idx" "1 \<le> value_idx"
    and "\<forall>line \<in> set lines.
           key_idx \<le> int (length (split_from delim [] (str_strip line))) \<and>
           value_idx \<le> int (length (split_from delim [] (str_strip line)))"
  shows "comprehend delim (key_idx - 1) (value_idx - 1) lines d =
     Inr (fold (\<lambda>line. AList.update (stored_field delim key_idx line)
                                      (stored_field delim value_idx line)) lines d)"
  using assms(4)
proof (induction lines arbitrary: d)
  case Nil
  show ?case by simp
next
  case (Cons line lines)
  let ?fields = "split_from delim [] (str_strip line)"
  let ?row = "?fields[0 := replace_underscore (?fields ! 0)]"
  have row: "preprocess_line delim line = Inr ?row"
    using assms(1) by (rule preprocess_line_ok)
  from Cons.prems have len: "key_idx \<le> int (length ?fields)" "value_idx \<le> int (length ?fields)"
    by simp_all
  have cell: "list_index ?row (idx - 1) = Inr (stored_field delim idx line)"
    if "1 \<le> idx" "idx \<le> int (length ?fields)" for idx
  proof -
    from that have "list_index ?row (idx - 1) = Inr (?row ! nat (idx - 1))"
      by (intro list_index_nat) simp_all
    moreover have "?row ! nat (idx - 1) = stored_field delim idx line"
    proof (cases "idx = 1")
      case True
      then show ?thesis
        using split_from_nonempty [of delim "[]" "str_strip line"]
        by (simp add: stored_field_def Let_def)
    next
      case False
      with that have "nat (idx - 1) \<noteq> 0" by simp
      with False show ?thesis by (simp add: stored_field_def Let_def)
    qed
    ultimately show ?thesis by simp
  qed
  from Cons.prems have rest: "\<forall>line \<in> set lines.
           key_idx \<le> int (length (split_from delim [] (str_strip line))) \<and>
           value_idx \<le> int (length (split_from delim [] (str_strip line)))"
    by simp
  show ?case
    using row cell [OF assms(2) len(1)] cell [OF assms(3) len(2)] Cons.IH [OF rest]
    by simp
qed

lemma split_two_rows:
  "split_from '','' [] (str_strip ''a_b,c_d'') = [''a_b'', ''c_d'']"
  "split_from '','' [] (str_strip ''e_f,g_h,i_j'') = [''e_f'', ''g_h'', ''i_j'']"
  by code_simp+

text \<open>
  C10. For every table whose rows have the selected fields, \<^verbatim>\<open>prepare_kv\<close> stores for
  each row the pair of \<^const>\<open>stored_field\<close> at the key index and at the value index:
  the stripped, underscore-replaced first field when the index is 1, and otherwise the
  field exactly as the split of the stripped line gives it. The replacement is tied to
  field 1 and not to the key: a key taken from another field keeps its underscores.
\<close>

theorem underscore_replacement_first_field_only:
  assumes "delim \<noteq> []" "1 \<le> key_idx" "1 \<le> value_idx" "key_idx \<noteq> value_idx"
    and "\<forall>line \<in> set lines.
           key_idx \<le> int (length (split_from delim [] (str_strip line))) \<and>
           value_idx \<le> int (length (split_from delim [] (str_strip line)))"
  shows "prepare_kv lines delim key_idx value_idx =
     Inr (fold (\<lambda>line. AList.update (stored_field delim key_idx line)
                                      (stored_field delim value_idx line)) lines [])"
  using assms(2,3,4) comprehend_ok [OF assms(1,2,3,5), of "[]"]
  by (simp add: prepare_kv_def is_ranged_or_raise_def is_different_idx_or_raise_def)

theorem underscore_replacement_first_field_only_witness:
  "prepare_kv [''a_b,c_d'', ''e_f,g_h,i_j''] '','' 2 1 =
     Inr [(''c_d'', ''a b''), (''g_h'', ''e f'')]"
proof -
  let ?lines = "[''a_b,c_d'', ''e_f,g_h,i_j'']"
  have len: "\<forall>line \<in> set ?lines.
           2 \<le> int (length (split_from '','' [] (str_strip line))) \<and>
           1 \<le> int (length (split_from '','' [] (str_strip line)))"
    by (simp add: split_two_rows)
  have "prepare_kv ?lines '','' 2 1 =
     Inr (fold (\<lambda>line. AList.update (stored_field '','' 2 line)
                                      (stored_field '','' 1 line)) ?lines [])"
    by (rule underscore_replacement_first_field_only [OF _ _ _ _ len]) simp_all
  also have "fold (\<lambda>line. AList.update (stored_field '','' 2 line)
                                      (stored_field '','' 1 line)) ?lines [] =
       [(''c_d'', ''a b''), (''g_h'', ''e f'')]"
    by code_simp
  finally show ?thesis .
qed

section \<open>The dual-input session\<close>


























section \<open>Input strategies and the non-interactive session\<close>

lemma read_lines_result:
  "fst (read_lines self p buffer (map Line ls @ EOF # rest) tr) =
     (if buffer = [] \<and> ls = [] then Inl (EOFError ''EOF when reading a line'')
      else Inr (concat (buffer @ ls))) \<and>
   fst (snd (read_lines self p buffer (map Line ls @ EOF # rest) tr)) = rest"
  by (induction ls arbitrary: p buffer tr) simp_all

lemma read_lines_exhausted:
  "fst (read_lines self p buffer (map Line ls) tr) =
     (if buffer = [] \<and> ls = [] then Inl (EOFError ''EOF when reading a line'')
      else Inr (concat (buffer @ ls)))"
  by (induction ls arbitrary: p buffer tr) simp_all

lemma multiple_input_result:
  "fst (fst (multiple_input self prompt (map Line ls @ EOF # rest))) =
     (if ls = [] then Inl (EOFError ''EOF when reading a line'') else Inr (concat ls)) \<and>
   fst (snd (fst (multiple_input self prompt (map Line ls @ EOF # rest)))) = rest"
  using read_lines_result [of _ _ "[]" ls rest "[]"]
  by (cases prompt) (simp_all add: multiple_input_def Let_def)

text \<open>
  C4. For every list of lines followed by an end-of-input, whatever the labels and the
  argument, \<^verbatim>\<open>MultipleInputStrategy.input\<close> returns the concatenation of the lines with
  nothing between them, and raises \<^verbatim>\<open>EOFError\<close> exactly when there was no line; the
  rest of the console is left for the next call. The lines \<^verbatim>\<open>foo\<close>, \<^verbatim>\<open>bar\<close> give
  \<^verbatim>\<open>foobar\<close>.
\<close>

theorem multiline_submission:
  "fst (fst (multiple_input self prompt (map Line ls @ EOF # rest))) =
     (if ls = [] then Inl (EOFError ''EOF when reading a line'') else Inr (concat ls)) \<and>
   fst (snd (fst (multiple_input self prompt (map Line ls @ EOF # rest)))) = rest \<and>
   ((\<exists>e. fst (fst (multiple_input self prompt (map Line ls @ EOF # rest))) = Inl e) = (ls = [])) \<and>
   fst (fst (multiple_input self prompt [Line ''foo'', Line ''bar'', EOF])) = Inr ''foobar''"
proof -
  note r = multiple_input_result [of self prompt ls rest]
  have "fst (fst (multiple_input self prompt (map Line [''foo'', ''bar''] @ EOF # []))) =
        Inr (concat [''foo'', ''bar''])"
    using multiple_input_result [of self prompt "[''foo'', ''bar'']" "[]"] by simp
  then have "fst (fst (multiple_input self prompt [Line ''foo'', Line ''bar'', EOF])) = Inr ''foobar''"
    by simp
  with r show ?thesis by simp
qed

lemma prompts_append: "prompts (a @ b) = prompts a @ prompts b"
  by (simp add: prompts_def)

lemma prompts_simps:
  "prompts [] = []"
  "prompts (Prompt p # tr) = p # prompts tr"
  "prompts (Stdout s # tr) = prompts tr"
  by (simp_all add: prompts_def)

lemma read_lines_prompts:
  "prompts (snd (snd (read_lines self p buffer console tr))) =
   prompts tr @ p # replicate (length (takeWhile (\<lambda>ev. \<exists>l. ev = Line l) console)) (Some (ps2 self))"
  by (induction self p buffer console tr rule: read_lines.induct)
     (simp_all add: prompts_append prompts_simps replicate_append_same)

text \<open>
  C9. A call of \<^verbatim>\<open>MultipleInputStrategy.input\<close> with an argument \<open>p\<close> leaves the object
  with both labels equal to \<open>p\<close>, whatever the console does; a call without an argument
  leaves the object as it was, and shows \<^verbatim>\<open>ps1\<close> for the first line and \<^verbatim>\<open>ps2\<close> for
  every further one. So a later call without an argument shows \<open>p\<close> for every line
  and leaves both labels equal to \<open>p\<close>.
\<close>

theorem prompt_argument_overwrites_labels:
  "snd (multiple_input self (Some p) console) = self\<lparr>ps1 := p, ps2 := p\<rparr> \<and>
   snd (multiple_input self None console) = self \<and>
   snd (multiple_input (snd (multiple_input self (Some p) console)) None console') =
     self\<lparr>ps1 := p, ps2 := p\<rparr> \<and>
   prompts (snd (snd (fst (multiple_input self None console)))) =
     Some (ps1 self) #
       replicate (length (takeWhile (\<lambda>ev. \<exists>l. ev = Line l) console)) (Some (ps2 self)) \<and>
   prompts (snd (snd (fst (multiple_input (snd (multiple_input self (Some p) console)) None console')))) =
     replicate (Suc (length (takeWhile (\<lambda>ev. \<exists>l. ev = Line l) console'))) (Some p)"
  by (simp add: multiple_input_def Let_def read_lines_prompts prompts_simps)

lemma single_calls_simps:
  "single_calls [] = []"
  "single_calls (ExecSingle s # tr) = s # single_calls tr"
  "single_calls (Stdout s # tr) = single_calls tr"
  "single_calls (Stderr s # tr) = single_calls tr"
  by (simp_all add: single_calls_def)

lemma run_once_calls:
  "single_calls (snd (run_once exec ev)) = [case ev of Line s \<Rightarrow> str_strip s | _ \<Rightarrow> []]"
proof (cases ev)
  case (Line s)
  then show ?thesis
    by (cases "exec (str_strip s)") (simp_all add: run_once_def single_calls_simps)
qed (cases "exec []"; simp add: run_once_def single_calls_simps)+

lemma run_once_interrupted:
  assumes "ev = EOF \<or> ev = Interrupt"
  shows "exit_status (fst (run_once exec ev)) \<noteq> 0"
    and "exec [] = Inr out \<Longrightarrow>
         run_once exec ev = (SystemExit 1, [Stderr nl, ExecSingle [], Stdout (out @ nl)])"
  using assms by (cases "exec []"; auto simp: run_once_def exit_status_def)+

text \<open>
  C5. For every outcome of the read and every callback, \<^verbatim>\<open>_run_once\<close> calls the
  callback exactly once. When the read is interrupted or meets the end of input, the
  callback is called with the empty string and the method ends with a non-zero exit
  status; if the callback returns, its result is printed after the newline on the
  standard error, and the method ends by \<^verbatim>\<open>sys.exit(1)\<close>.
\<close>

theorem noninteractive_executes_once:
  "single_calls (snd (run_once exec ev)) = [case ev of Line s \<Rightarrow> str_strip s | _ \<Rightarrow> []] \<and>
   length (single_calls (snd (run_once exec ev))) = 1 \<and>
   (ev = EOF \<or> ev = Interrupt \<longrightarrow>
      single_calls (snd (run_once exec ev)) = [[]] \<and>
      exit_status (fst (run_once exec ev)) \<noteq> 0 \<and>
      (\<forall>out. exec [] = Inr out \<longrightarrow>
         run_once exec ev = (SystemExit 1, [Stderr nl, ExecSingle [], Stdout (out @ nl)])))"
  using run_once_calls [of exec ev] run_once_interrupted [of ev exec]
  by auto

theorem noninteractive_executes_once_witness:
  "run_once (\<lambda>s. Inr (s @ ''!'')) Interrupt =
     (SystemExit 1, [Stderr nl, ExecSingle [], Stdout (''!'' @ nl)]) \<and>
   single_calls (snd (run_once (\<lambda>s. Inr (s @ ''!'')) Interrupt)) = [[]] \<and>
   exit_status (fst (run_once (\<lambda>s. Inr (s @ ''!'')) Interrupt)) \<noteq> 0"
proof -
  let ?exec = "\<lambda>s :: string. Inr (s @ ''!'') :: exn + string"
  note t = noninteractive_executes_once [where exec = ?exec and ev = Interrupt]
  have e: "?exec [] = Inr ''!''" by simp
  from t e have a: "run_once ?exec Interrupt =
          (SystemExit 1, [Stderr nl, ExecSingle [], Stdout (''!'' @ nl)])"
    by blast
  from t have b: "single_calls (snd (run_once ?exec Interrupt)) = [[]]"
    and c: "exit_status (fst (run_once ?exec Interrupt)) \<noteq> 0"
    by blast+
  from a b c show ?thesis by blast
qed

text \<open>
  C7. Without \<^verbatim>\<open>--interactive\<close> the input strategy is the direct one; on the model
  of \<^verbatim>\<open>DirectInputStrategy\<close> written from its description, the first call returns the
  wrapped string and the second call fails with \<^verbatim>\<open>EOFError\<close>.
\<close>

theorem direct_input_once:
  "get_input_strategy False one_line p1 p2 available =
     Direct (DirectInputStrategy (Some available)) \<and>
   fst (direct_input (DirectInputStrategy (Some available))) = Inr available \<and>
   fst (direct_input (snd (direct_input (DirectInputStrategy (Some available))))) =
     Inl (EOFError ''EOF when reading a line'')"
  by (simp add: get_input_strategy_def)

end
